theory Spec2Isabelle
  imports Main "HOL-Library.Sublist" "HOL-Library.Multiset"
begin

section \<open>Python strings and values\<close>

text \<open>
  A Python \<^verbatim>\<open>str\<close> is a sequence of Unicode code points, so a string is a list of
  natural numbers (one per code point) and \<open>length\<close> counts what Python's \<^verbatim>\<open>len\<close>
  counts. \<open>lit\<close> turns an ASCII literal of the source into such a string.
\<close>

type_synonym pystr = "nat list"

definition lit :: "string \<Rightarrow> pystr" where
  "lit s = map of_char s"

text \<open>
  \<^verbatim>\<open>str.strip()\<close> without argument removes leading and trailing white space, that is
  the code points for which \<^verbatim>\<open>str.isspace\<close> holds: U+0009..U+000D, U+001C..U+0020,
  U+0085, U+00A0, U+1680, U+2000..U+200A, U+2028, U+2029, U+202F, U+205F and U+3000.
\<close>

definition isspace :: "nat \<Rightarrow> bool" where
  "isspace c \<longleftrightarrow>
     (9 \<le> c \<and> c \<le> 13) \<or> (28 \<le> c \<and> c \<le> 32) \<or> c = 133 \<or> c = 160 \<or> c = 5760 \<or>
     (8192 \<le> c \<and> c \<le> 8202) \<or> c = 8232 \<or> c = 8233 \<or> c = 8239 \<or> c = 8287 \<or> c = 12288"

definition strip :: "pystr \<Rightarrow> pystr" where
  "strip s = rev (dropWhile isspace (rev (dropWhile isspace s)))"

definition startswith :: "pystr \<Rightarrow> pystr \<Rightarrow> bool" where
  "startswith s p \<longleftrightarrow> take (length p) s = p"

definition endswith :: "pystr \<Rightarrow> pystr \<Rightarrow> bool" where
  "endswith s p \<longleftrightarrow> length p \<le> length s \<and> drop (length s - length p) s = p"

text \<open>Decimal and hexadecimal rendering of numbers, as \<^verbatim>\<open>str\<close> and \<^verbatim>\<open>format\<close> do it.\<close>

fun digits :: "nat \<Rightarrow> pystr" where
  "digits n = (if n < 10 then [48 + n] else digits (n div 10) @ [48 + n mod 10])"

declare digits.simps [simp del]

definition str_int :: "int \<Rightarrow> pystr" where
  "str_int i = (if i < 0 then 45 # digits (nat (- i)) else digits (nat i))"

definition hex_digit :: "bool \<Rightarrow> nat \<Rightarrow> nat" where
  "hex_digit upper d = (if d < 10 then 48 + d else if upper then 55 + d else 87 + d)"

fun hex_digits :: "bool \<Rightarrow> nat \<Rightarrow> pystr" where
  "hex_digits upper n =
     (if n < 16 then [hex_digit upper n]
      else hex_digits upper (n div 16) @ [hex_digit upper (n mod 16)])"

declare hex_digits.simps [simp del]

definition zfill :: "nat \<Rightarrow> pystr \<Rightarrow> pystr" where
  "zfill w s = replicate (w - length s) 48 @ s"

text \<open>\<^verbatim>\<open>f"{rgb:06x}"\<close>: lower-case hexadecimal, zero-padded after the sign to width 6.\<close>

definition format_06x :: "int \<Rightarrow> pystr" where
  "format_06x i =
     (if i < 0 then 45 # zfill 5 (hex_digits False (nat (- i)))
      else zfill 6 (hex_digits False (nat i)))"

text \<open>
  The values the program puts into its output: \<^verbatim>\<open>None\<close>, booleans, integers, strings,
  lists, and dictionaries with string keys. A dictionary keeps its keys in insertion
  order, so it is an association list.
\<close>

datatype pyval =
    PNone
  | PBool bool
  | PInt int
  | PStr pystr
  | PList "pyval list"
  | PDict "(string \<times> pyval) list"

fun truthy :: "pyval \<Rightarrow> bool" where
  "truthy PNone = False"
| "truthy (PBool b) = b"
| "truthy (PInt i) = (i \<noteq> 0)"
| "truthy (PStr s) = (s \<noteq> [])"
| "truthy (PList xs) = (xs \<noteq> [])"
| "truthy (PDict kvs) = (kvs \<noteq> [])"

datatype exn =
    AttributeError pystr
  | KeyError pystr
  | TypeError pystr
  | OtherException pystr

fun str_exn :: "exn \<Rightarrow> pystr" where
  "str_exn (AttributeError m) = m"
| "str_exn (KeyError k) = [39] @ k @ [39]"
| "str_exn (TypeError m) = m"
| "str_exn (OtherException m) = m"

text \<open>\<^verbatim>\<open>d[k]\<close>: the value under the key, \<^verbatim>\<open>KeyError\<close> when the key is missing.\<close>

fun getitem :: "pyval \<Rightarrow> string \<Rightarrow> exn + pyval" where
  "getitem (PDict kvs) k =
     (case map_of kvs k of None \<Rightarrow> Inl (KeyError (lit k)) | Some v \<Rightarrow> Inr v)"
| "getitem _ k = Inl (TypeError (lit ''object is not subscriptable''))"

text \<open>\<^verbatim>\<open>d[k] = v\<close>: an existing key keeps its place, a new key goes last.\<close>

fun setitem :: "(string \<times> pyval) list \<Rightarrow> string \<Rightarrow> pyval \<Rightarrow> (string \<times> pyval) list" where
  "setitem [] k v = [(k, v)]"
| "setitem ((k', v') # kvs) k v =
     (if k' = k then (k, v) # kvs else (k', v') # setitem kvs k v)"

text \<open>Iterating over a value: only a list is iterated by the program.\<close>

fun iter :: "pyval \<Rightarrow> exn + pyval list" where
  "iter (PList xs) = Inr xs"
| "iter _ = Inl (TypeError (lit ''object is not iterable''))"

text \<open>
  \<^verbatim>\<open>any(f(x) for x in xs)\<close> stops at the first true element; an exception raised
  by an element that is reached propagates.
\<close>

fun any_exn :: "('a \<Rightarrow> exn + bool) \<Rightarrow> 'a list \<Rightarrow> exn + bool" where
  "any_exn f [] = Inr False"
| "any_exn f (x # xs) =
     (case f x of Inl e \<Rightarrow> Inl e | Inr b \<Rightarrow> if b then Inr True else any_exn f xs)"

text \<open>The keys of a dictionary, in order.\<close>

fun keys :: "pyval \<Rightarrow> string list" where
  "keys (PDict kvs) = map fst kvs"
| "keys _ = []"

text \<open>All dictionaries that occur anywhere inside a value, the value itself included.\<close>

fun dicts :: "pyval \<Rightarrow> pyval list" where
  "dicts (PList xs) = concat (map dicts xs)"
| "dicts (PDict kvs) = PDict kvs # concat (map (\<lambda>kv. dicts (snd kv)) kvs)"
| "dicts _ = []"

section \<open>The document model\<close>

text \<open>
  The program reads a document through the objects of the document library. Each
  object is a record of the attributes the program reads. \<open>Missing\<close> is an attribute
  the object does not have (\<^verbatim>\<open>hasattr\<close> is false), \<open>Has v\<close> one with value \<open>v\<close>.
\<close>

datatype 'a attr = Missing | Has 'a

text \<open>
  An attribute that the program copies into its output as it is holds \<^verbatim>\<open>None\<close>, a
  boolean, an integer (a member of an integer enumeration) or a string.
\<close>

datatype scalar = SNone | SBool bool | SInt int | SStr pystr

fun pyval_of :: "scalar \<Rightarrow> pyval" where
  "pyval_of SNone = PNone"
| "pyval_of (SBool b) = PBool b"
| "pyval_of (SInt i) = PInt i"
| "pyval_of (SStr s) = PStr s"

text \<open>
  A measurement or enumeration value of the library, of which the program only takes
  the truth value and the \<^verbatim>\<open>str\<close> form: a \<open>Length\<close> is an integer (in EMU), an
  enumeration member is an integer with a name, a \<open>Float\<close> (a line spacing given as a
  multiple) is known by whether it is non-zero and by its \<^verbatim>\<open>str\<close> form.
\<close>

datatype docval =
    Length int
  | EnumMember int pystr
  | Float bool pystr

fun truthy_docval :: "docval \<Rightarrow> bool" where
  "truthy_docval (Length n) = (n \<noteq> 0)"
| "truthy_docval (EnumMember n s) = (n \<noteq> 0)"
| "truthy_docval (Float nz s) = nz"

fun str_docval :: "docval \<Rightarrow> pystr" where
  "str_docval (Length n) = str_int n"
| "str_docval (EnumMember n s) = s"
| "str_docval (Float nz s) = s"

text \<open>\<^verbatim>\<open>str(x) if x else None\<close>, for an \<open>x\<close> that is such a value or \<^verbatim>\<open>None\<close>.\<close>

fun str_if_truthy :: "docval option \<Rightarrow> pyval" where
  "str_if_truthy None = PNone"
| "str_if_truthy (Some v) = (if truthy_docval v then PStr (str_docval v) else PNone)"

text \<open>
  The colour of a font. Reading \<^verbatim>\<open>font.color\<close> or \<^verbatim>\<open>color.rgb\<close> may raise; the value
  of \<^verbatim>\<open>rgb\<close> is \<^verbatim>\<open>None\<close>, an \<^verbatim>\<open>RGBColor\<close> (a triple of bytes) or a plain integer.
\<close>

datatype rgb = RGBColor nat nat nat | IntRGB int

datatype rgb_access = RgbRaises exn | RgbNone | Rgb rgb

datatype color_access = ColorRaises exn | ColorNone | ColorFormat rgb_access

record font =
  font_size :: "docval option attr"
  font_name :: "scalar attr"
  font_all_caps :: "scalar attr"
  font_color :: "color_access attr"
  font_highlight_color :: "docval option attr"
  font_subscript :: "scalar attr"
  font_superscript :: "scalar attr"

record run =
  run_text :: pystr
  run_bold :: "scalar attr"
  run_italic :: "scalar attr"
  run_underline :: "scalar attr"
  run_font :: font

record paragraph_format =
  alignment :: "docval option"
  first_line_indent :: "docval option"
  left_indent :: "docval option"
  right_indent :: "docval option"
  line_spacing :: "docval option"
  space_before :: "docval option"
  space_after :: "docval option"
  keep_together :: scalar
  keep_with_next :: scalar
  page_break_before :: scalar
  widow_control :: scalar

text \<open>
  The numbering properties of a paragraph's XML element: \<^verbatim>\<open>pPr\<close> is \<^verbatim>\<open>None\<close> or an
  element whose \<^verbatim>\<open>numPr\<close> is \<^verbatim>\<open>None\<close> or an element whose \<^verbatim>\<open>ilvl\<close> is \<^verbatim>\<open>None\<close> or
  an element with the integer \<^verbatim>\<open>val\<close>.
\<close>

type_synonym CT_NumPr = "int option"
type_synonym CT_PPr = "CT_NumPr option"

record para =
  para_text :: pystr
  para_style_name :: "pystr option"
  para_format :: paragraph_format
  para_runs :: "run list"
  para_numbering :: bool
  para_pPr :: "CT_PPr option"

record cell =
  cell_text :: pystr
  cell_paragraphs :: "para list"

record table =
  table_style :: "pystr option option"
  table_rows :: "cell list list"

record docsection =
  section_header :: "para list option"

record document =
  doc_sections :: "docsection list"
  doc_paragraphs :: "para list"
  doc_tables :: "table list"

section \<open>Font properties and paragraph format\<close>

text \<open>\<^verbatim>\<open>getattr(obj, name, None)\<close>\<close>

fun getattr_or_None :: "scalar attr \<Rightarrow> pyval" where
  "getattr_or_None Missing = PNone"
| "getattr_or_None (Has v) = pyval_of v"

text \<open>\<^verbatim>\<open>str(x)\<close> of a library value or of \<^verbatim>\<open>None\<close>.\<close>

fun str_opt :: "docval option \<Rightarrow> pystr" where
  "str_opt None = lit ''None''"
| "str_opt (Some v) = str_docval v"

fun truthy_rgb :: "rgb \<Rightarrow> bool" where
  "truthy_rgb (RGBColor r g b) = True"
| "truthy_rgb (IntRGB i) = (i \<noteq> 0)"

text \<open>\<^verbatim>\<open>str\<close> of an \<^verbatim>\<open>RGBColor\<close>: two upper-case hexadecimal digits per byte.\<close>

fun color_string :: "rgb \<Rightarrow> pystr" where
  "color_string (IntRGB i) = 35 # format_06x i"
| "color_string (RGBColor r g b) =
     zfill 2 (hex_digits True r) @ zfill 2 (hex_digits True g) @ zfill 2 (hex_digits True b)"

text \<open>
  The body of the \<^verbatim>\<open>try\<close> block of \<open>get_font_properties\<close>: the new value of the key
  \<^verbatim>\<open>color\<close>, \<open>None\<close> when the condition is false and nothing is assigned, or the
  exception raised. \<^verbatim>\<open>hasattr\<close> turns an \<^verbatim>\<open>AttributeError\<close> of the access into
  false; any other exception leaves the block.
\<close>

fun try_color :: "color_access attr \<Rightarrow> exn + pyval option" where
  "try_color Missing = Inr None"
| "try_color (Has (ColorRaises (AttributeError m))) = Inr None"
| "try_color (Has (ColorRaises e)) = Inl e"
| "try_color (Has ColorNone) = Inr None"
| "try_color (Has (ColorFormat (RgbRaises e))) = Inl e"
| "try_color (Has (ColorFormat RgbNone)) = Inr None"
| "try_color (Has (ColorFormat (Rgb c))) =
     (if truthy_rgb c then Inr (Some (PStr (color_string c))) else Inr None)"

definition get_font_properties :: "run \<Rightarrow> pyval" where
  "get_font_properties r =
     (let f = run_font r;
          properties =
            [(''bold'', getattr_or_None (run_bold r)),
             (''italic'', getattr_or_None (run_italic r)),
             (''underline'', getattr_or_None (run_underline r)),
             (''font_size'',
                (case font_size f of Missing \<Rightarrow> PNone | Has s \<Rightarrow> str_if_truthy s)),
             (''font_name'', getattr_or_None (font_name f)),
             (''all_caps'', getattr_or_None (font_all_caps f)),
             (''color'', PNone),
             (''highlight_color'',
                (case font_highlight_color f of Missing \<Rightarrow> PNone | Has h \<Rightarrow> PStr (str_opt h))),
             (''subscript'', getattr_or_None (font_subscript f)),
             (''superscript'', getattr_or_None (font_superscript f))]
      in case try_color (font_color f) of
           Inl e \<Rightarrow> PDict properties
         | Inr None \<Rightarrow> PDict properties
         | Inr (Some c) \<Rightarrow> PDict (setitem properties ''color'' c))"

definition get_paragraph_format :: "para \<Rightarrow> pyval" where
  "get_paragraph_format p =
     (let fmt = para_format p
      in PDict
        [(''alignment'', str_if_truthy (alignment fmt)),
         (''first_line_indent'', str_if_truthy (first_line_indent fmt)),
         (''left_indent'', str_if_truthy (left_indent fmt)),
         (''right_indent'', str_if_truthy (right_indent fmt)),
         (''line_spacing'', str_if_truthy (line_spacing fmt)),
         (''space_before'', str_if_truthy (space_before fmt)),
         (''space_after'', str_if_truthy (space_after fmt)),
         (''keep_together'', pyval_of (keep_together fmt)),
         (''keep_with_next'', pyval_of (keep_with_next fmt)),
         (''page_break_before'', pyval_of (page_break_before fmt)),
         (''widow_control'', pyval_of (widow_control fmt))])"

section \<open>Extraction of one document\<close>

fun str_or_None :: "pystr option \<Rightarrow> pyval" where
  "str_or_None None = PNone"
| "str_or_None (Some s) = PStr s"

definition run_content :: "run \<Rightarrow> pyval" where
  "run_content r =
     PDict [(''text'', PStr (run_text r)), (''font_properties'', get_font_properties r)]"

text \<open>
  The loop over the runs of a paragraph, the same for header, body and cell
  paragraphs: a run is appended to the list under \<^verbatim>\<open>runs\<close> when its stripped text is
  not empty. The second argument is the list so far.
\<close>

fun append_runs :: "run list \<Rightarrow> pyval list \<Rightarrow> pyval list" where
  "append_runs [] acc = acc"
| "append_runs (r # rs) acc =
     append_runs rs (if strip (run_text r) \<noteq> [] then acc @ [run_content r] else acc)"

definition header_content :: "para \<Rightarrow> pyval" where
  "header_content p =
     PDict [(''text'', PStr (strip (para_text p))),
            (''style_name'', str_or_None (para_style_name p)),
            (''formatting'', get_paragraph_format p),
            (''runs'', PList (append_runs (para_runs p) []))]"

fun header_paragraphs :: "para list \<Rightarrow> pyval list \<Rightarrow> pyval list" where
  "header_paragraphs [] headers = headers"
| "header_paragraphs (p # ps) headers =
     header_paragraphs ps
       (if strip (para_text p) \<noteq> [] then headers @ [header_content p] else headers)"

fun headers_loop :: "docsection list \<Rightarrow> pyval list \<Rightarrow> pyval list" where
  "headers_loop [] headers = headers"
| "headers_loop (s # ss) headers =
     headers_loop ss
       (case section_header s of
          None \<Rightarrow> headers
        | Some ps \<Rightarrow> header_paragraphs ps headers)"

text \<open>The message of the \<^verbatim>\<open>AttributeError\<close> for an attribute read from \<^verbatim>\<open>None\<close>.\<close>

definition no_attribute :: "string \<Rightarrow> pystr" where
  "no_attribute a =
     [39] @ lit ''NoneType'' @ [39] @ lit '' object has no attribute '' @ [39] @ lit a @ [39]"

text \<open>
  \<^verbatim>\<open>list_level\<close>: the value of \<^verbatim>\<open>ilvl\<close> when the paragraph has the attribute
  \<^verbatim>\<open>numbering\<close> and the chain \<^verbatim>\<open>pPr.numPr\<close> is there. \<^verbatim>\<open>hasattr\<close> of \<^verbatim>\<open>None\<close> is
  false, \<^verbatim>\<open>hasattr(numPr, 'ilvl')\<close> of an element is true also when that child is
  \<^verbatim>\<open>None\<close>, and then reading \<^verbatim>\<open>val\<close> raises.
\<close>

definition list_level :: "para \<Rightarrow> exn + pyval" where
  "list_level p =
     (if para_numbering p then
        (case para_pPr p of
           None \<Rightarrow> Inr PNone
         | Some None \<Rightarrow> Inr PNone
         | Some (Some None) \<Rightarrow>
             Inl (AttributeError (no_attribute ''val''))
         | Some (Some (Some v)) \<Rightarrow> Inr (PInt v))
      else Inr PNone)"

text \<open>
  The record of a body paragraph. \<^verbatim>\<open>para.style.name.startswith('List')\<close> raises
  when the style has no name.
\<close>

definition para_content :: "para \<Rightarrow> exn + pyval" where
  "para_content p =
     (case para_style_name p of
        None \<Rightarrow> Inl (AttributeError (no_attribute ''startswith''))
      | Some name \<Rightarrow>
          (case list_level p of
             Inl e \<Rightarrow> Inl e
           | Inr level \<Rightarrow>
               Inr (PDict
                 [(''text'', PStr (strip (para_text p))),
                  (''style_name'', PStr name),
                  (''formatting'', get_paragraph_format p),
                  (''runs'', PList (append_runs (para_runs p) [])),
                  (''is_list_item'', PBool (startswith name (lit ''List'') \<or> para_numbering p)),
                  (''list_level'', level)])))"

text \<open>
  The state of the loop over the body paragraphs: the lists under the keys
  \<^verbatim>\<open>paragraphs\<close> and \<^verbatim>\<open>lists\<close> of the result, and the two local variables.
\<close>

record body_state =
  content_paragraphs :: "pyval list"
  content_lists :: "pyval list"
  current_list :: pyval
  list_items :: "pyval list"

definition body_init :: body_state where
  "body_init =
     \<lparr>content_paragraphs = [], content_lists = [], current_list = PNone, list_items = []\<rparr>"

definition body_step :: "para \<Rightarrow> body_state \<Rightarrow> exn + body_state" where
  "body_step p st =
     (if strip (para_text p) \<noteq> [] then
        (case para_content p of
           Inl e \<Rightarrow> Inl e
         | Inr pc \<Rightarrow>
             (case getitem pc ''is_list_item'' of
                Inl e \<Rightarrow> Inl e
              | Inr b \<Rightarrow>
                  if truthy b then
                    (if current_list st = PNone then
                       (case getitem pc ''list_level'' of
                          Inl e \<Rightarrow> Inl e
                        | Inr level \<Rightarrow>
                            Inr (st\<lparr>current_list :=
                                       PDict [(''level'', level), (''items'', PList [])],
                                     list_items := list_items st @ [pc]\<rparr>))
                     else Inr (st\<lparr>list_items := list_items st @ [pc]\<rparr>))
                  else
                    (let st' =
                       (if current_list st \<noteq> PNone then
                          st\<lparr>content_lists := content_lists st @ [PList (list_items st)],
                             list_items := [],
                             current_list := PNone\<rparr>
                        else st)
                     in Inr (st'\<lparr>content_paragraphs := content_paragraphs st' @ [pc]\<rparr>))))
      else Inr st)"

fun body_loop :: "para list \<Rightarrow> body_state \<Rightarrow> exn + body_state" where
  "body_loop [] st = Inr st"
| "body_loop (p # ps) st =
     (case body_step p st of Inl e \<Rightarrow> Inl e | Inr st' \<Rightarrow> body_loop ps st')"

text \<open>After the loop: the remaining list items, if any, form the last group.\<close>

definition body_finish :: "body_state \<Rightarrow> body_state" where
  "body_finish st =
     (if list_items st \<noteq> [] then
        st\<lparr>content_lists := content_lists st @ [PList (list_items st)]\<rparr>
      else st)"

definition cell_para_content :: "para \<Rightarrow> pyval" where
  "cell_para_content p =
     PDict [(''text'', PStr (strip (para_text p))),
            (''style_name'', str_or_None (para_style_name p)),
            (''formatting'', get_paragraph_format p),
            (''runs'', PList (append_runs (para_runs p) []))]"

fun cell_paragraphs_loop :: "para list \<Rightarrow> pyval list \<Rightarrow> pyval list" where
  "cell_paragraphs_loop [] acc = acc"
| "cell_paragraphs_loop (p # ps) acc =
     cell_paragraphs_loop ps
       (if strip (para_text p) \<noteq> [] then acc @ [cell_para_content p] else acc)"

definition cell_content :: "cell \<Rightarrow> pyval" where
  "cell_content c =
     PDict [(''text'', PStr (strip (cell_text c))),
            (''paragraphs'', PList (cell_paragraphs_loop (cell_paragraphs c) []))]"

fun row_loop :: "cell list \<Rightarrow> pyval list \<Rightarrow> pyval list" where
  "row_loop [] row_data = row_data"
| "row_loop (c # cs) row_data = row_loop cs (row_data @ [cell_content c])"

fun rows_loop :: "cell list list \<Rightarrow> pyval list \<Rightarrow> pyval list" where
  "rows_loop [] rows = rows"
| "rows_loop (r # rs) rows = rows_loop rs (rows @ [PList (row_loop r [])])"

definition table_data :: "table \<Rightarrow> pyval" where
  "table_data t =
     PDict [(''style'',
               (case table_style t of
                  None \<Rightarrow> PStr (lit ''Normal'')
                | Some name \<Rightarrow> str_or_None name)),
            (''rows'', PList (rows_loop (table_rows t) []))]"

text \<open>
  \<^verbatim>\<open>any(any(cell["text"] for cell in row) for row in table_data["rows"])\<close>
\<close>

definition any_cell_text :: "pyval \<Rightarrow> exn + bool" where
  "any_cell_text td =
     (case getitem td ''rows'' of
        Inl e \<Rightarrow> Inl e
      | Inr rows \<Rightarrow>
          (case iter rows of
             Inl e \<Rightarrow> Inl e
           | Inr rs \<Rightarrow>
               any_exn (\<lambda>row.
                 case iter row of
                   Inl e \<Rightarrow> Inl e
                 | Inr cs \<Rightarrow>
                     any_exn (\<lambda>c.
                       case getitem c ''text'' of
                         Inl e \<Rightarrow> Inl e
                       | Inr t \<Rightarrow> Inr (truthy t)) cs) rs))"

fun tables_loop :: "table list \<Rightarrow> pyval list \<Rightarrow> exn + pyval list" where
  "tables_loop [] tables = Inr tables"
| "tables_loop (t # ts) tables =
     (case any_cell_text (table_data t) of
        Inl e \<Rightarrow> Inl e
      | Inr keep \<Rightarrow> tables_loop ts (if keep then tables @ [table_data t] else tables))"

text \<open>\<^verbatim>\<open>os.path.basename\<close>: what follows the last \<^verbatim>\<open>/\<close>.\<close>

definition basename :: "pystr \<Rightarrow> pystr" where
  "basename p = rev (takeWhile (\<lambda>c. c \<noteq> 47) (rev p))"

text \<open>The extraction proper, from the document that the library has parsed.\<close>

definition extract_content :: "pystr \<Rightarrow> document \<Rightarrow> exn + pyval" where
  "extract_content docx_path doc =
     (let headers = headers_loop (doc_sections doc) []
      in case body_loop (doc_paragraphs doc) body_init of
           Inl e \<Rightarrow> Inl e
         | Inr st \<Rightarrow>
             (let st' = body_finish st
              in case tables_loop (doc_tables doc) [] of
                   Inl e \<Rightarrow> Inl e
                 | Inr tables \<Rightarrow>
                     Inr (PDict
                       [(''paragraphs'', PList (content_paragraphs st')),
                        (''tables'', PList tables),
                        (''headers'', PList headers),
                        (''document_name'', PStr (basename docx_path)),
                        (''lists'', PList (content_lists st'))])))"

text \<open>
  \<open>extract_docx_content\<close> opens the document with the library's \<^verbatim>\<open>Document\<close>, which
  is a parameter here: it gives the parsed document of a path, or raises.
\<close>

definition extract_docx_content :: "(pystr \<Rightarrow> exn + document) \<Rightarrow> pystr \<Rightarrow> exn + pyval" where
  "extract_docx_content Document docx_path =
     (case Document docx_path of
        Inl e \<Rightarrow> Inl e
      | Inr doc \<Rightarrow> extract_content docx_path doc)"

section \<open>The batch driver\<close>

text \<open>
  What the driver finds around it: the names that \<^verbatim>\<open>os.listdir('.')\<close> returns,
  \<^verbatim>\<open>str.lower\<close>, the library's \<^verbatim>\<open>Document\<close>, and the exception, if any, that opening
  a file for writing and dumping a value into it raises.
\<close>

record env =
  listdir :: "pystr list"
  lower :: "pystr \<Rightarrow> pystr"
  Document :: "pystr \<Rightarrow> exn + document"
  write_error :: "pystr \<Rightarrow> pyval \<Rightarrow> exn option"

text \<open>
  What the driver does to the world: the lines it prints, and the files it has
  written to the end, each with the arguments of \<^verbatim>\<open>open\<close> and \<^verbatim>\<open>json.dump\<close>. A
  file whose writing raises is not in the list, whatever is left of it on the disk.
\<close>

record json_file =
  file_name :: pystr
  file_encoding :: string
  dumped :: pyval
  ensure_ascii :: bool
  indent :: nat

record world =
  stdout :: "pystr list"
  files :: "json_file list"

definition print :: "pystr \<Rightarrow> world \<Rightarrow> world" where
  "print line w = w\<lparr>stdout := stdout w @ [line]\<rparr>"

text \<open>\<^verbatim>\<open>s.rfind(c)\<close>: the last index of the character, or -1.\<close>

definition rfind :: "pystr \<Rightarrow> nat \<Rightarrow> int" where
  "rfind s c =
     (if c \<in> set s then int (length s) - 1 - int (length (takeWhile (\<lambda>x. x \<noteq> c) (rev s)))
      else - 1)"

text \<open>
  \<^verbatim>\<open>os.path.splitext\<close>: the extension starts at the last dot of the last path
  component, unless only dots precede it there; then there is no extension.
\<close>

definition splitext :: "pystr \<Rightarrow> pystr \<times> pystr" where
  "splitext p =
     (let sepIndex = rfind p 47; dotIndex = rfind p 46
      in if dotIndex > sepIndex \<and>
            (\<exists>c \<in> set (take (nat (dotIndex - (sepIndex + 1))) (drop (nat (sepIndex + 1)) p)).
               c \<noteq> 46)
         then (take (nat dotIndex) p, drop (nat dotIndex) p)
         else (p, []))"

definition json_filename :: "pystr \<Rightarrow> pystr" where
  "json_filename docx_file = fst (splitext docx_file) @ lit ''.json''"

text \<open>
  The body of the \<^verbatim>\<open>try\<close> block for one file: the world it leaves, and the
  exception that ended it, if any.
\<close>

definition try_file :: "env \<Rightarrow> pystr \<Rightarrow> world \<Rightarrow> world \<times> exn option" where
  "try_file E docx_file w =
     (let w1 = print (lit ''Processing '' @ docx_file @ lit ''...'') w
      in case extract_docx_content (Document E) docx_file of
           Inl e \<Rightarrow> (w1, Some e)
         | Inr content \<Rightarrow>
             (case write_error E (json_filename docx_file) content of
                Some e \<Rightarrow> (w1, Some e)
              | None \<Rightarrow>
                  (print (lit ''Successfully created '' @ json_filename docx_file)
                     (w1\<lparr>files := files w1 @
                        [\<lparr>file_name = json_filename docx_file,
                          file_encoding = ''utf-8'',
                          dumped = content,
                          ensure_ascii = False,
                          indent = 4\<rparr>]\<rparr>),
                   None)))"

text \<open>One round of the loop: the \<^verbatim>\<open>try\<close> block and its \<^verbatim>\<open>except Exception\<close>.\<close>

definition process_file :: "env \<Rightarrow> pystr \<Rightarrow> world \<Rightarrow> world" where
  "process_file E docx_file w =
     (case try_file E docx_file w of
        (w', None) \<Rightarrow> w'
      | (w', Some e) \<Rightarrow>
          print (lit ''Full error details:  '' @ str_exn e)
            (print (lit ''Error processing '' @ docx_file @ lit '': '' @ str_exn e) w'))"

fun process_loop :: "env \<Rightarrow> pystr list \<Rightarrow> world \<Rightarrow> world" where
  "process_loop E [] w = w"
| "process_loop E (f # fs) w = process_loop E fs (process_file E f w)"

definition docx_files :: "env \<Rightarrow> pystr list" where
  "docx_files E = filter (\<lambda>f. endswith (lower E f) (lit ''.docx'')) (listdir E)"

definition process_docx_files :: "env \<Rightarrow> world \<Rightarrow> world" where
  "process_docx_files E w =
     (if docx_files E = [] then
        print (lit ''No .docx files found in the current directory'') w
      else process_loop E (docx_files E) w)"

section \<open>Notions used in the statements\<close>

text \<open>
  The definitions of this section are not translations of code. Some follow the words
  of the specification (\<open>blank\<close>, \<open>maximal_runs\<close>, \<open>is_list_para\<close>, \<open>str_if_present\<close>,
  \<open>spec_json_name\<close>), and the theorems below compare the code with them; the others
  name parts of the results of the code.
\<close>

text \<open>A text with no non-whitespace content: empty, or white space only.\<close>

definition blank :: "pystr \<Rightarrow> bool" where
  "blank s \<longleftrightarrow> list_all isspace s"

text \<open>
  The maximal runs of consecutive elements that satisfy \<open>P\<close>, in order: a run
  starts at an element that satisfies \<open>P\<close>, takes all that follow and satisfy it,
  and the search goes on behind the run.
\<close>

function maximal_runs :: "('a \<Rightarrow> bool) \<Rightarrow> 'a list \<Rightarrow> 'a list list" where
  "maximal_runs P [] = []"
| "maximal_runs P (x # xs) =
     (if P x then (x # takeWhile P xs) # maximal_runs P (dropWhile P xs)
      else maximal_runs P xs)"
  by pat_completeness auto
termination
  by (relation "measure (\<lambda>(P, xs). length xs)")
     (auto simp: length_dropWhile_le less_Suc_eq_le)

text \<open>
  A paragraph is a list item if its style name begins with \<^verbatim>\<open>List\<close> or the document
  model flags it as numbered.
\<close>

definition is_list_para :: "para \<Rightarrow> bool" where
  "is_list_para p \<longleftrightarrow>
     (case para_style_name p of None \<Rightarrow> False | Some name \<Rightarrow> prefix (lit ''List'') name)
     \<or> para_numbering p"


text \<open>The record of a body paragraph for which \<open>para_content\<close> returns.\<close>

definition the_content :: "para \<Rightarrow> pyval" where
  "the_content p = (case para_content p of Inl e \<Rightarrow> PNone | Inr pc \<Rightarrow> pc)"

text \<open>
  The groups that come out of a sequence of paragraphs when \<open>items\<close> are the records
  of the group that is open at its start (none if \<open>items\<close> is empty).
\<close>

definition groups_from :: "pyval list \<Rightarrow> para list \<Rightarrow> pyval list" where
  "groups_from items qs =
     (if items = [] then map (\<lambda>g. PList (map the_content g)) (maximal_runs is_list_para qs)
      else PList (items @ map the_content (takeWhile is_list_para qs)) #
           map (\<lambda>g. PList (map the_content g))
             (maximal_runs is_list_para (dropWhile is_list_para qs)))"

text \<open>The value under a key of a result, if there is a result.\<close>

definition field :: "string \<Rightarrow> exn + pyval \<Rightarrow> exn + pyval" where
  "field k r = (case r of Inl e \<Rightarrow> Inl e | Inr v \<Rightarrow> getitem v k)"

text \<open>A record with only-whitespace text; the record of a table cell.\<close>

definition has_blank_text :: "pyval \<Rightarrow> bool" where
  "has_blank_text d = (case getitem d ''text'' of Inr (PStr t) \<Rightarrow> blank t | _ \<Rightarrow> False)"

definition is_cell_record :: "pyval \<Rightarrow> bool" where
  "is_cell_record d \<longleftrightarrow> keys d = [''text'', ''paragraphs'']"

text \<open>All dictionaries inside a result; none when an exception was raised.\<close>

definition dicts_of :: "exn + pyval \<Rightarrow> pyval list" where
  "dicts_of r = (case r of Inl e \<Rightarrow> [] | Inr v \<Rightarrow> dicts v)"

text \<open>
  A file is processed successfully when neither its extraction nor the writing of
  its output raises; \<open>outcome\<close> is the extracted content then, and the exception
  otherwise.
\<close>

definition outcome :: "env \<Rightarrow> pystr \<Rightarrow> exn + pyval" where
  "outcome E docx_file =
     (case extract_docx_content (Document E) docx_file of
        Inl e \<Rightarrow> Inl e
      | Inr content \<Rightarrow>
          (case write_error E (json_filename docx_file) content of
             Some e \<Rightarrow> Inl e
           | None \<Rightarrow> Inr content))"



text \<open>What is printed for one file, and what is written for it.\<close>

definition lines_for :: "env \<Rightarrow> pystr \<Rightarrow> pystr list" where
  "lines_for E f =
     (case outcome E f of
        Inl e \<Rightarrow>
          [lit ''Processing '' @ f @ lit ''...'',
           lit ''Error processing '' @ f @ lit '': '' @ str_exn e,
           lit ''Full error details:  '' @ str_exn e]
      | Inr content \<Rightarrow>
          [lit ''Processing '' @ f @ lit ''...'',
           lit ''Successfully created '' @ json_filename f])"

definition files_for :: "env \<Rightarrow> pystr \<Rightarrow> json_file list" where
  "files_for E f =
     (case outcome E f of
        Inl e \<Rightarrow> []
      | Inr content \<Rightarrow>
          [\<lparr>file_name = json_filename f, file_encoding = ''utf-8'', dumped = content,
            ensure_ascii = False, indent = 4\<rparr>])"

text \<open>
  The name of the input with its extension replaced, the extension being the five
  characters at the end by which the driver has chosen the file.
\<close>

definition spec_json_name :: "pystr \<Rightarrow> pystr" where
  "spec_json_name f = take (length f - length (lit ''.docx'')) f @ lit ''.json''"

section \<open>Example inputs\<close>

text \<open>Concrete runs, paragraphs and documents, on which the theorems are instantiated.\<close>

definition plain_font :: font where
  "plain_font =
     \<lparr>font_size = Has None, font_name = Has SNone, font_all_caps = Has SNone,
      font_color = Has (ColorFormat RgbNone), font_highlight_color = Has None,
      font_subscript = Has SNone, font_superscript = Has SNone\<rparr>"

definition plain_run :: "pystr \<Rightarrow> run" where
  "plain_run t =
     \<lparr>run_text = t, run_bold = Has SNone, run_italic = Has SNone,
      run_underline = Has SNone, run_font = plain_font\<rparr>"

definition plain_format :: paragraph_format where
  "plain_format =
     \<lparr>alignment = None, first_line_indent = None, left_indent = None,
      right_indent = None, line_spacing = None, space_before = None,
      space_after = None, keep_together = SNone, keep_with_next = SNone,
      page_break_before = SNone, widow_control = SNone\<rparr>"

text \<open>A paragraph of the given style with one run, which holds all its text.\<close>

definition plain_para :: "string \<Rightarrow> string \<Rightarrow> para" where
  "plain_para style t =
     \<lparr>para_text = lit t, para_style_name = Some (lit style), para_format = plain_format,
      para_runs = [plain_run (lit t)], para_numbering = False, para_pPr = None\<rparr>"



text \<open>
  A document with a header, five body paragraphs (a list item, a blank paragraph of
  style Normal, a list item, a paragraph of text, a list item) and two tables: one
  with a blank cell only, and one with a cell of text and a blank cell.
\<close>

definition blank_cell :: cell where
  "blank_cell = \<lparr>cell_text = lit '' '', cell_paragraphs = [plain_para ''Normal'' '' '']\<rparr>"

definition text_cell :: cell where
  "text_cell = \<lparr>cell_text = lit ''A'', cell_paragraphs = [plain_para ''Normal'' ''A'']\<rparr>"

definition empty_table :: table where
  "empty_table = \<lparr>table_style = None, table_rows = [[blank_cell]]\<rparr>"

definition text_table :: table where
  "text_table =
     \<lparr>table_style = Some (Some (lit ''Table Grid'')), table_rows = [[text_cell, blank_cell]]\<rparr>"

definition example_doc :: document where
  "example_doc =
     \<lparr>doc_sections = [\<lparr>section_header = Some [plain_para ''Header'' ''Title'']\<rparr>],
      doc_paragraphs =
        [plain_para ''List Bullet'' ''a'', plain_para ''Normal'' '' '',
         plain_para ''List Bullet'' ''b'', plain_para ''Normal'' ''text'',
         plain_para ''List Number'' ''c''],
      doc_tables = [empty_table, text_table]\<rparr>"

text \<open>A paragraph with white space around its text and around the texts of its runs.\<close>

definition spaced_para :: para where
  "spaced_para =
     \<lparr>para_text = lit '' Hi there '', para_style_name = Some (lit ''Normal''),
      para_format = plain_format,
      para_runs = [plain_run (lit '' Hi ''), plain_run (lit '' ''), plain_run (lit ''there '')],
      para_numbering = False, para_pPr = None\<rparr>"

text \<open>A library that opens one file, with this document, and no other.\<close>

definition example_Document :: "pystr \<Rightarrow> exn + document" where
  "example_Document path =
     (if path = lit ''a.docx'' then Inr example_doc
      else Inl (OtherException (lit ''Package not found'')))"

text \<open>Lower case for the letters A to Z.\<close>

definition ascii_lower :: "pystr \<Rightarrow> pystr" where
  "ascii_lower s = map (\<lambda>c. if 65 \<le> c \<and> c \<le> 90 then c + 32 else c) s"

definition empty_world :: world where
  "empty_world = \<lparr>stdout = [], files = []\<rparr>"

text \<open>
  A directory with a file that the library cannot open, a file that is no document,
  and the example document; every write succeeds.
\<close>

definition example_env :: env where
  "example_env =
     \<lparr>listdir = [lit ''bad.docx'', lit ''notes.txt'', lit ''a.docx''],
      lower = ascii_lower,
      Document = example_Document,
      write_error = (\<lambda>name content. None)\<rparr>"

text \<open>A directory with one document, whose name is only the extension.\<close>

definition dot_env :: env where
  "dot_env =
     \<lparr>listdir = [lit ''.docx''],
      lower = ascii_lower,
      Document = (\<lambda>path. Inr example_doc),
      write_error = (\<lambda>name content. None)\<rparr>"

section \<open>Basic facts\<close>

lemma startswith_prefix: "startswith s p \<longleftrightarrow> prefix p s"
  by (auto simp: startswith_def prefix_def) (metis append_eq_conv_conj)

text \<open>The test \<^verbatim>\<open>if text.strip()\<close> of the code fails exactly on a blank text.\<close>

lemma strip_Nil_iff: "strip s = [] \<longleftrightarrow> blank s"
proof -
  have "strip s = [] \<longleftrightarrow> (\<forall>x \<in> set (dropWhile isspace s). isspace x)"
    by (simp add: strip_def dropWhile_eq_Nil_conv)
  also have "\<dots> \<longleftrightarrow> dropWhile isspace s = []"
  proof
    assume a: "\<forall>x \<in> set (dropWhile isspace s). isspace x"
    show "dropWhile isspace s = []"
    proof (rule ccontr)
      assume n: "dropWhile isspace s \<noteq> []"
      then have "\<not> isspace (hd (dropWhile isspace s))" by (rule hd_dropWhile)
      moreover have "hd (dropWhile isspace s) \<in> set (dropWhile isspace s)" using n by simp
      ultimately show False using a by blast
    qed
  qed (auto dest: set_dropWhileD)
  also have "\<dots> \<longleftrightarrow> blank s"
    by (simp add: blank_def dropWhile_eq_Nil_conv list_all_iff)
  finally show ?thesis .
qed

lemma strip_not_blank: "strip s \<noteq> [] \<Longrightarrow> \<not> blank (strip s)"
proof -
  assume n: "strip s \<noteq> []"
  let ?d = "dropWhile isspace (rev (dropWhile isspace s))"
  from n have d: "?d \<noteq> []" by (simp add: strip_def)
  then have "\<not> isspace (hd ?d)" by (rule hd_dropWhile)
  moreover have "hd ?d \<in> set (strip s)" using d by (simp add: strip_def)
  ultimately show ?thesis by (auto simp: blank_def list_all_iff)
qed

section \<open>Font properties\<close>






section \<open>Paragraph format\<close>





section \<open>The loops of the extraction in closed form\<close>

lemma append_runs_eq:
  "append_runs rs acc = acc @ map run_content (filter (\<lambda>r. strip (run_text r) \<noteq> []) rs)"
  by (induction rs arbitrary: acc) simp_all

lemma header_paragraphs_eq:
  "header_paragraphs ps hs =
     hs @ map header_content (filter (\<lambda>p. strip (para_text p) \<noteq> []) ps)"
  by (induction ps arbitrary: hs) simp_all

lemma headers_loop_eq:
  "headers_loop ss hs =
     hs @ concat (map (\<lambda>s. case section_header s of None \<Rightarrow> []
        | Some ps \<Rightarrow> map header_content (filter (\<lambda>p. strip (para_text p) \<noteq> []) ps)) ss)"
  by (induction ss arbitrary: hs) (simp_all add: header_paragraphs_eq split: option.splits)

lemma cell_paragraphs_loop_eq:
  "cell_paragraphs_loop ps acc =
     acc @ map cell_para_content (filter (\<lambda>p. strip (para_text p) \<noteq> []) ps)"
  by (induction ps arbitrary: acc) simp_all

lemma row_loop_eq: "row_loop cs acc = acc @ map cell_content cs"
  by (induction cs arbitrary: acc) simp_all

lemma rows_loop_eq: "rows_loop rs acc = acc @ map (\<lambda>r. PList (map cell_content r)) rs"
  by (induction rs arbitrary: acc) (simp_all add: row_loop_eq)

lemma getitem_cell_text: "getitem (cell_content c) ''text'' = Inr (PStr (strip (cell_text c)))"
  by (simp add: cell_content_def)

lemma any_cell_text_table_data:
  "any_cell_text (table_data t) =
     Inr (\<exists>row \<in> set (table_rows t). \<exists>c \<in> set row. strip (cell_text c) \<noteq> [])"
proof -
  have inner: "any_exn (\<lambda>c. case getitem c ''text'' of Inl e \<Rightarrow> Inl e | Inr t \<Rightarrow> Inr (truthy t))
      (map cell_content row) = Inr (\<exists>c \<in> set row. strip (cell_text c) \<noteq> [])" for row
    by (induction row) (auto simp: getitem_cell_text)
  have outer: "any_exn (\<lambda>row. case iter row of Inl e \<Rightarrow> Inl e
        | Inr cs \<Rightarrow> any_exn (\<lambda>c. case getitem c ''text'' of Inl e \<Rightarrow> Inl e
            | Inr t \<Rightarrow> Inr (truthy t)) cs)
      (map (\<lambda>r. PList (map cell_content r)) rows) =
      Inr (\<exists>row \<in> set rows. \<exists>c \<in> set row. strip (cell_text c) \<noteq> [])" for rows
    by (induction rows) (auto simp: inner)
  show ?thesis
    by (simp add: any_cell_text_def table_data_def rows_loop_eq outer)
qed

lemma tables_loop_eq:
  "tables_loop ts acc =
     Inr (acc @ map table_data
       (filter (\<lambda>t. \<exists>row \<in> set (table_rows t). \<exists>c \<in> set row. strip (cell_text c) \<noteq> []) ts))"
  by (induction ts arbitrary: acc) (simp_all add: any_cell_text_table_data)

lemma para_content_is_list_item:
  "para_content p = Inr pc \<Longrightarrow> getitem pc ''is_list_item'' = Inr (PBool (is_list_para p))"
  by (auto simp: para_content_def is_list_para_def startswith_prefix
      split: option.splits sum.splits)

lemma para_content_list_level:
  "para_content p = Inr pc \<Longrightarrow> \<exists>l. getitem pc ''list_level'' = Inr l"
  by (auto simp: para_content_def split: option.splits sum.splits)

lemma para_content_the: "para_content p = Inr pc \<Longrightarrow> the_content p = pc"
  by (simp add: the_content_def)

lemma body_step_blank: "strip (para_text p) = [] \<Longrightarrow> body_step p st = Inr st"
  by (simp add: body_step_def)

lemma body_step_item:
  assumes "strip (para_text p) \<noteq> []" "body_step p st = Inr st'" "is_list_para p"
  shows "para_content p = Inr (the_content p) \<and>
         content_paragraphs st' = content_paragraphs st \<and>
         content_lists st' = content_lists st \<and>
         list_items st' = list_items st @ [the_content p] \<and>
         current_list st' \<noteq> PNone"
proof -
  from assms(1,2) obtain pc where pc: "para_content p = Inr pc"
    by (auto simp: body_step_def split: sum.splits)
  note il = para_content_is_list_item [OF pc]
  from para_content_list_level [OF pc] obtain l where l: "getitem pc ''list_level'' = Inr l" ..
  show ?thesis
    using assms pc il l para_content_the [OF pc]
    by (auto simp: body_step_def split: if_splits)
qed

lemma body_step_other:
  assumes "strip (para_text p) \<noteq> []" "body_step p st = Inr st'" "\<not> is_list_para p"
    "current_list st = PNone \<longleftrightarrow> list_items st = []"
  shows "para_content p = Inr (the_content p) \<and>
         content_paragraphs st' = content_paragraphs st @ [the_content p] \<and>
         content_lists st' =
           content_lists st @ (if list_items st = [] then [] else [PList (list_items st)]) \<and>
         list_items st' = [] \<and>
         current_list st' = PNone"
proof -
  from assms(1,2) obtain pc where pc: "para_content p = Inr pc"
    by (auto simp: body_step_def split: sum.splits)
  note il = para_content_is_list_item [OF pc]
  show ?thesis
    using assms pc il para_content_the [OF pc]
    by (auto simp: body_step_def Let_def split: if_splits)
qed

lemma groups_from_Nil: "groups_from items [] = (if items = [] then [] else [PList items])"
  by (simp add: groups_from_def)

lemma groups_from_item:
  "is_list_para q \<Longrightarrow> groups_from items (q # qs) = groups_from (items @ [the_content q]) qs"
  by (simp add: groups_from_def)

lemma groups_from_other:
  "\<not> is_list_para q \<Longrightarrow>
   groups_from items (q # qs) =
     (if items = [] then [] else [PList items]) @ groups_from [] qs"
  by (simp add: groups_from_def)

lemma body_loop_closed:
  assumes "body_loop ps st = Inr st'" "current_list st = PNone \<longleftrightarrow> list_items st = []"
  shows "(\<forall>p \<in> set ps. strip (para_text p) \<noteq> [] \<longrightarrow> para_content p = Inr (the_content p)) \<and>
    content_paragraphs st' = content_paragraphs st @
      map the_content (filter (\<lambda>p. strip (para_text p) \<noteq> [] \<and> \<not> is_list_para p) ps) \<and>
    content_lists (body_finish st') = content_lists st @
      groups_from (list_items st) (filter (\<lambda>p. strip (para_text p) \<noteq> []) ps)"
  using assms
proof (induction ps arbitrary: st)
  case Nil
  then show ?case by (simp add: body_finish_def groups_from_Nil)
next
  case (Cons p ps)
  from Cons.prems(1) obtain st1 where
    s1: "body_step p st = Inr st1" and l1: "body_loop ps st1 = Inr st'"
    by (auto split: sum.splits)
  show ?case
  proof (cases "strip (para_text p) = []")
    case True
    with s1 have "st1 = st" by (simp add: body_step_blank)
    with Cons.IH [of st] l1 Cons.prems(2) True show ?thesis by simp
  next
    case False
    show ?thesis
    proof (cases "is_list_para p")
      case True
      note f = body_step_item [OF False s1 True]
      from f have i1: "current_list st1 = PNone \<longleftrightarrow> list_items st1 = []" by simp
      from Cons.IH [OF l1 i1] f False True show ?thesis
        by (simp add: groups_from_item)
    next
      case np: False
      note f = body_step_other [OF False s1 np Cons.prems(2)]
      from f have i1: "current_list st1 = PNone \<longleftrightarrow> list_items st1 = []" by simp
      from Cons.IH [OF l1 i1] f False np show ?thesis
        by (simp add: groups_from_other)
    qed
  qed
qed

lemma body_finish_paragraphs: "content_paragraphs (body_finish st) = content_paragraphs st"
  by (simp add: body_finish_def)

lemma extract_content_closed:
  assumes "extract_content path doc = Inr content"
  shows "content = PDict
     [(''paragraphs'', PList (map the_content
         (filter (\<lambda>p. strip (para_text p) \<noteq> [] \<and> \<not> is_list_para p) (doc_paragraphs doc)))),
      (''tables'', PList (map table_data
         (filter (\<lambda>t. \<exists>row \<in> set (table_rows t). \<exists>c \<in> set row. strip (cell_text c) \<noteq> [])
            (doc_tables doc)))),
      (''headers'', PList (concat (map (\<lambda>s. case section_header s of None \<Rightarrow> []
          | Some ps \<Rightarrow> map header_content (filter (\<lambda>p. strip (para_text p) \<noteq> []) ps))
          (doc_sections doc)))),
      (''document_name'', PStr (basename path)),
      (''lists'', PList (map (\<lambda>g. PList (map the_content g))
         (maximal_runs is_list_para
            (filter (\<lambda>p. strip (para_text p) \<noteq> []) (doc_paragraphs doc)))))]"
    and "\<forall>p \<in> set (doc_paragraphs doc).
           strip (para_text p) \<noteq> [] \<longrightarrow> para_content p = Inr (the_content p)"
proof -
  from assms obtain st where st: "body_loop (doc_paragraphs doc) body_init = Inr st"
    by (auto simp: extract_content_def Let_def split: sum.splits)
  have i: "current_list body_init = PNone \<longleftrightarrow> list_items body_init = []"
    by (simp add: body_init_def)
  note c = body_loop_closed [OF st i]
  from c show "\<forall>p \<in> set (doc_paragraphs doc).
           strip (para_text p) \<noteq> [] \<longrightarrow> para_content p = Inr (the_content p)" by blast
  from assms st c show "content = PDict
     [(''paragraphs'', PList (map the_content
         (filter (\<lambda>p. strip (para_text p) \<noteq> [] \<and> \<not> is_list_para p) (doc_paragraphs doc)))),
      (''tables'', PList (map table_data
         (filter (\<lambda>t. \<exists>row \<in> set (table_rows t). \<exists>c \<in> set row. strip (cell_text c) \<noteq> [])
            (doc_tables doc)))),
      (''headers'', PList (concat (map (\<lambda>s. case section_header s of None \<Rightarrow> []
          | Some ps \<Rightarrow> map header_content (filter (\<lambda>p. strip (para_text p) \<noteq> []) ps))
          (doc_sections doc)))),
      (''document_name'', PStr (basename path)),
      (''lists'', PList (map (\<lambda>g. PList (map the_content g))
         (maximal_runs is_list_para
            (filter (\<lambda>p. strip (para_text p) \<noteq> []) (doc_paragraphs doc)))))]"
    by (auto simp: extract_content_def Let_def tables_loop_eq headers_loop_eq
        body_init_def groups_from_def body_finish_paragraphs)
qed

section \<open>When the extraction returns\<close>

text \<open>
  The extraction raises only in the record of a non-blank body paragraph: when its
  style has no name, or when it is flagged as numbered and its numbering properties
  have no level. Otherwise it returns.
\<close>

lemma para_content_returns:
  "para_style_name p \<noteq> None \<Longrightarrow> \<not> (para_numbering p \<and> para_pPr p = Some (Some None)) \<Longrightarrow>
   \<exists>pc. para_content p = Inr pc"
  by (auto simp: para_content_def list_level_def split: option.splits)

lemma body_step_returns:
  "strip (para_text p) \<noteq> [] \<longrightarrow> (\<exists>pc. para_content p = Inr pc) \<Longrightarrow> \<exists>st'. body_step p st = Inr st'"
proof (cases "strip (para_text p) = []")
  case True
  then show ?thesis by (simp add: body_step_blank)
next
  case False
  assume "strip (para_text p) \<noteq> [] \<longrightarrow> (\<exists>pc. para_content p = Inr pc)"
  with False obtain pc where pc: "para_content p = Inr pc" by blast
  from para_content_list_level [OF pc] obtain l where "getitem pc ''list_level'' = Inr l" ..
  with pc para_content_is_list_item [OF pc] False show ?thesis
    by (simp add: body_step_def Let_def)
qed

lemma body_loop_returns:
  "\<forall>p \<in> set ps. strip (para_text p) \<noteq> [] \<longrightarrow> (\<exists>pc. para_content p = Inr pc) \<Longrightarrow>
   \<exists>st'. body_loop ps st = Inr st'"
proof (induction ps arbitrary: st)
  case Nil
  then show ?case by simp
next
  case (Cons p ps)
  then obtain st1 where "body_step p st = Inr st1"
    using body_step_returns [of p st] by auto
  with Cons show ?case by simp
qed

lemma extract_content_returns:
  "\<forall>p \<in> set (doc_paragraphs doc). strip (para_text p) \<noteq> [] \<longrightarrow> (\<exists>pc. para_content p = Inr pc) \<Longrightarrow>
   \<exists>content. extract_content path doc = Inr content"
  using body_loop_returns [of "doc_paragraphs doc" body_init]
  by (auto simp: extract_content_def Let_def tables_loop_eq)

lemma plain_para_content:
  "\<exists>pc. para_content (plain_para style t) = Inr pc"
  by (rule para_content_returns) (simp_all add: plain_para_def)

lemma example_returns:
  "\<exists>content. extract_docx_content example_Document (lit ''a.docx'') = Inr content"
  using extract_content_returns [of example_doc "lit ''a.docx''"]
  by (auto simp: extract_docx_content_def example_Document_def example_doc_def
      plain_para_content)

section \<open>Tables\<close>

lemma strip_examples:
  "strip (lit ''a'') = lit ''a''" "strip (lit ''b'') = lit ''b''" "strip (lit ''c'') = lit ''c''"
  "strip (lit ''text'') = lit ''text''" "strip (lit '' '') = []" "strip (lit ''A'') = lit ''A''"
  "strip (lit ''Title'') = lit ''Title''"
  by (simp_all add: strip_def lit_def isspace_def)

lemma lit_nonempty: "lit ''a'' \<noteq> []" "lit ''b'' \<noteq> []" "lit ''c'' \<noteq> []" "lit ''text'' \<noteq> []"
  "lit ''A'' \<noteq> []" "lit ''Title'' \<noteq> []"
  by (simp_all add: lit_def)

lemma is_list_examples:
  "is_list_para (plain_para ''List Bullet'' t)" "is_list_para (plain_para ''List Number'' t)"
  "\<not> is_list_para (plain_para ''Normal'' t)" "\<not> is_list_para (plain_para ''list'' t)"
  by (simp_all add: is_list_para_def plain_para_def lit_def)

text \<open>
  C3. When the extraction returns, the tables of the output are the records of exactly
  those tables of the document, in order, in which some cell of some row has a
  non-empty stripped text; for the other tables nothing is put into the list.
\<close>

theorem tables_kept_iff_cell_text:
  assumes "D path = Inr doc" "extract_docx_content D path = Inr content"
  shows "getitem content ''tables'' =
     Inr (PList (map table_data
       (filter (\<lambda>t. \<exists>row \<in> set (table_rows t). \<exists>c \<in> set row. strip (cell_text c) \<noteq> [])
          (doc_tables doc))))"
proof -
  from assms have "extract_content path doc = Inr content"
    by (simp add: extract_docx_content_def)
  from extract_content_closed(1) [OF this] show ?thesis by simp
qed

theorem tables_kept_iff_cell_text_witness:
  "field ''tables'' (extract_docx_content example_Document (lit ''a.docx'')) =
     Inr (PList [table_data text_table])"
proof -
  from example_returns obtain content where
    c: "extract_docx_content example_Document (lit ''a.docx'') = Inr content" ..
  have d: "example_Document (lit ''a.docx'') = Inr example_doc"
    by (simp add: example_Document_def)
  from tables_kept_iff_cell_text [OF d c] c show ?thesis
    by (simp add: field_def example_doc_def empty_table_def text_table_def blank_cell_def
        text_cell_def strip_examples lit_nonempty)
qed

section \<open>The dictionaries of the output\<close>

lemma dicts_pyval_of: "dicts (pyval_of x) = []"
  by (cases x) simp_all

lemma dicts_getattr: "dicts (getattr_or_None a) = []"
  by (cases a) (simp_all add: dicts_pyval_of)

lemma dicts_str_if_truthy: "dicts (str_if_truthy x) = []"
  by (cases x) simp_all

lemma try_color_Some: "try_color a = Inr (Some c) \<Longrightarrow> \<exists>s. c = PStr s"
  by (auto elim!: try_color.elims split: if_splits)

lemma dicts_font: "dicts (get_font_properties r) = [get_font_properties r]"
proof (cases "try_color (font_color (run_font r))")
  case (Inl e)
  then show ?thesis
    by (simp add: get_font_properties_def Let_def dicts_getattr dicts_str_if_truthy
        split: attr.splits)
next
  case (Inr res)
  show ?thesis
  proof (cases res)
    case None
    with Inr show ?thesis
      by (simp add: get_font_properties_def Let_def dicts_getattr dicts_str_if_truthy
          split: attr.splits)
  next
    case (Some c)
    with Inr try_color_Some obtain s where "c = PStr s" by blast
    with Inr Some show ?thesis
      by (simp add: get_font_properties_def Let_def dicts_getattr dicts_str_if_truthy
          split: attr.splits)
  qed
qed

lemma dicts_format: "dicts (get_paragraph_format p) = [get_paragraph_format p]"
  by (simp add: get_paragraph_format_def Let_def dicts_pyval_of dicts_str_if_truthy)

lemma font_no_text: "\<not> has_blank_text (get_font_properties r)"
  by (simp add: has_blank_text_def get_font_properties_def Let_def
      split: sum.splits option.splits)

lemma format_no_text: "\<not> has_blank_text (get_paragraph_format p)"
  by (simp add: has_blank_text_def get_paragraph_format_def Let_def)

lemma run_content_text:
  "has_blank_text (run_content r) \<longleftrightarrow> strip (run_text r) = []"
  by (simp add: has_blank_text_def run_content_def strip_Nil_iff)

lemma dicts_run_content:
  "dicts (run_content r) = [run_content r, get_font_properties r]"
  by (simp add: run_content_def dicts_font)

lemma dicts_runs:
  "d \<in> set (concat (map dicts (append_runs rs []))) \<Longrightarrow> \<not> has_blank_text d"
  by (auto simp: append_runs_eq dicts_run_content run_content_text font_no_text)

lemma dicts_str_or_None: "dicts (str_or_None x) = []"
  by (cases x) simp_all

lemma dicts_header_content:
  assumes "strip (para_text p) \<noteq> []" "d \<in> set (dicts (header_content p))"
  shows "\<not> has_blank_text d"
proof -
  have h: "\<not> has_blank_text (header_content p)"
    using assms(1) strip_not_blank by (simp add: has_blank_text_def header_content_def)
  from assms(2) have "d = header_content p \<or> d = get_paragraph_format p \<or>
      d \<in> set (concat (map dicts (append_runs (para_runs p) [])))"
    by (auto simp: header_content_def dicts_format dicts_str_or_None)
  with h format_no_text dicts_runs show ?thesis by blast
qed

lemma dicts_cell_para_content:
  assumes "strip (para_text p) \<noteq> []" "d \<in> set (dicts (cell_para_content p))"
  shows "\<not> has_blank_text d"
proof -
  have h: "\<not> has_blank_text (cell_para_content p)"
    using assms(1) strip_not_blank by (simp add: has_blank_text_def cell_para_content_def)
  from assms(2) have "d = cell_para_content p \<or> d = get_paragraph_format p \<or>
      d \<in> set (concat (map dicts (append_runs (para_runs p) [])))"
    by (auto simp: cell_para_content_def dicts_format dicts_str_or_None)
  with h format_no_text dicts_runs show ?thesis by blast
qed

lemma list_level_dicts: "list_level p = Inr l \<Longrightarrow> dicts l = []"
  by (auto simp: list_level_def split: if_splits option.splits)

lemma dicts_para_content:
  assumes "strip (para_text p) \<noteq> []" "para_content p = Inr pc" "d \<in> set (dicts pc)"
  shows "\<not> has_blank_text d"
proof -
  from assms(2) obtain name l where
    pc: "pc = PDict
       [(''text'', PStr (strip (para_text p))),
        (''style_name'', PStr name),
        (''formatting'', get_paragraph_format p),
        (''runs'', PList (append_runs (para_runs p) [])),
        (''is_list_item'', PBool (startswith name (lit ''List'') \<or> para_numbering p)),
        (''list_level'', l)]" and l: "list_level p = Inr l"
    by (auto simp: para_content_def split: option.splits sum.splits)
  have h: "\<not> has_blank_text pc"
    using assms(1) strip_not_blank by (simp add: has_blank_text_def pc)
  from assms(3) have "d = pc \<or> d = get_paragraph_format p \<or>
      d \<in> set (concat (map dicts (append_runs (para_runs p) [])))"
    by (auto simp: pc dicts_format list_level_dicts [OF l])
  with h format_no_text dicts_runs show ?thesis by blast
qed

lemma dicts_cell_content:
  assumes "d \<in> set (dicts (cell_content c))" "has_blank_text d"
  shows "d = cell_content c"
proof -
  from assms(1) have "d = cell_content c \<or>
     (\<exists>p \<in> set (cell_paragraphs c). strip (para_text p) \<noteq> [] \<and> d \<in> set (dicts (cell_para_content p)))"
    by (auto simp: cell_content_def cell_paragraphs_loop_eq)
  with assms(2) dicts_cell_para_content show ?thesis by blast
qed

lemma cell_content_is_cell: "is_cell_record (cell_content c)"
  by (simp add: is_cell_record_def cell_content_def)

lemma dicts_table_data:
  assumes "d \<in> set (dicts (table_data t))" "has_blank_text d"
  shows "is_cell_record d"
proof -
  have n: "\<not> has_blank_text (table_data t)"
    by (simp add: has_blank_text_def table_data_def)
  have s: "dicts (case table_style t of None \<Rightarrow> PStr (lit ''Normal'')
      | Some name \<Rightarrow> str_or_None name) = []"
    by (simp add: dicts_str_or_None split: option.splits)
  from assms(1) have "d = table_data t \<or>
     (\<exists>row \<in> set (table_rows t). \<exists>c \<in> set row. d \<in> set (dicts (cell_content c)))"
    by (auto simp: table_data_def rows_loop_eq s)
  with assms(2) n dicts_cell_content cell_content_is_cell show ?thesis by metis
qed

lemma dicts_root:
  "set (dicts (PDict [(k1, PList P), (k2, PList T), (k3, PList H), (k4, PStr n), (k5, PList L)])) =
     insert (PDict [(k1, PList P), (k2, PList T), (k3, PList H), (k4, PStr n), (k5, PList L)])
       ((\<Union>x \<in> set P. set (dicts x)) \<union> (\<Union>x \<in> set T. set (dicts x)) \<union>
        (\<Union>x \<in> set H. set (dicts x)) \<union> (\<Union>x \<in> set L. set (dicts x)))"
  by (simp add: Un_assoc)

lemma dicts_PList_iff: "d \<in> set (dicts (PList xs)) \<longleftrightarrow> (\<exists>x \<in> set xs. d \<in> set (dicts x))"
  by simp

lemma cell_in_table:
  assumes "row \<in> set (table_rows t)" "cl \<in> set row"
  shows "cell_content cl \<in> set (dicts (table_data t))"
proof -
  have "cell_content cl \<in> set (dicts (cell_content cl))"
    by (simp add: cell_content_def)
  with assms(2) have "cell_content cl \<in> set (dicts (PList (map cell_content row)))"
    unfolding dicts_PList_iff by auto
  with assms(1) have "cell_content cl \<in> set (dicts (PList (rows_loop (table_rows t) [])))"
    unfolding dicts_PList_iff rows_loop_eq by auto
  then show ?thesis
    by (simp add: table_data_def)
qed

section \<open>Maximal runs\<close>

lemma filter_takeWhile_same: "filter P (takeWhile P xs) = takeWhile P xs"
  by (induction xs) simp_all

lemma filter_split_run: "takeWhile P xs @ filter P (dropWhile P xs) = filter P xs"
proof -
  have "filter P xs = filter P (takeWhile P xs @ dropWhile P xs)"
    by (simp only: takeWhile_dropWhile_id)
  also have "\<dots> = takeWhile P xs @ filter P (dropWhile P xs)"
    by (simp only: filter_append filter_takeWhile_same)
  finally show ?thesis by (rule sym)
qed

lemma maximal_runs_concat: "concat (maximal_runs P xs) = filter P xs"
proof (induction P xs rule: maximal_runs.induct)
  case (1 P)
  show ?case by simp
next
  case (2 P x xs)
  show ?case
  proof (cases "P x")
    case True
    from 2(1) [OF True] have "concat (maximal_runs P (x # xs)) =
        x # (takeWhile P xs @ filter P (dropWhile P xs))"
      using True by simp
    then show ?thesis using True by (simp only: filter_split_run filter.simps if_True)
  next
    case False
    from 2(2) [OF False] show ?thesis using False by simp
  qed
qed

lemma maximal_runs_nonempty: "[] \<notin> set (maximal_runs P xs)"
  by (induction P xs rule: maximal_runs.induct) auto

lemma maximal_runs_member:
  "g \<in> set (maximal_runs P xs) \<Longrightarrow> x \<in> set g \<Longrightarrow> x \<in> set xs \<and> P x"
proof -
  assume "g \<in> set (maximal_runs P xs)" "x \<in> set g"
  then have "x \<in> set (concat (maximal_runs P xs))" by auto
  then show ?thesis by (simp add: maximal_runs_concat)
qed

lemma maximal_runs_map:
  "maximal_runs P (map f xs) = map (map f) (maximal_runs (\<lambda>x. P (f x)) xs)"
proof (induction "\<lambda>x. P (f x)" xs rule: maximal_runs.induct)
  case 1
  then show ?case by simp
next
  case (2 x xs)
  then show ?case
    by (simp add: takeWhile_map dropWhile_map comp_def)
qed

section \<open>The example document\<close>

lemma extract_docx_content_closed:
  assumes "D path = Inr doc" "extract_docx_content D path = Inr content"
  shows "extract_content path doc = Inr content"
  using assms by (simp add: extract_docx_content_def)

lemma lists_closed:
  assumes "extract_content path doc = Inr content"
  shows "getitem content ''lists'' =
     Inr (PList (map (\<lambda>g. PList (map the_content g))
       (maximal_runs is_list_para
          (filter (\<lambda>p. \<not> blank (para_text p)) (doc_paragraphs doc)))))"
  by (subst extract_content_closed(1) [OF assms]) (simp add: strip_Nil_iff)

lemma paragraphs_closed:
  assumes "extract_content path doc = Inr content"
  shows "getitem content ''paragraphs'' =
     Inr (PList (map the_content
       (filter (\<lambda>p. \<not> blank (para_text p) \<and> \<not> is_list_para p) (doc_paragraphs doc))))"
  by (subst extract_content_closed(1) [OF assms]) (simp add: strip_Nil_iff)

lemma example_paragraphs:
  "filter (\<lambda>p. \<not> blank (para_text p)) (doc_paragraphs example_doc) =
     [plain_para ''List Bullet'' ''a'', plain_para ''List Bullet'' ''b'',
      plain_para ''Normal'' ''text'', plain_para ''List Number'' ''c'']"
  by (simp add: example_doc_def strip_Nil_iff [symmetric] plain_para_def strip_examples
      lit_nonempty)

lemma example_runs:
  "maximal_runs is_list_para
     [plain_para ''List Bullet'' ''a'', plain_para ''List Bullet'' ''b'',
      plain_para ''Normal'' ''text'', plain_para ''List Number'' ''c''] =
   [[plain_para ''List Bullet'' ''a'', plain_para ''List Bullet'' ''b''],
    [plain_para ''List Number'' ''c'']]"
  by (simp add: is_list_examples)

lemma example_runs_all:
  "maximal_runs is_list_para (doc_paragraphs example_doc) =
   [[plain_para ''List Bullet'' ''a''], [plain_para ''List Bullet'' ''b''],
    [plain_para ''List Number'' ''c'']]"
  by (simp add: example_doc_def is_list_examples)

lemma example_opens: "example_Document (lit ''a.docx'') = Inr example_doc"
  by (simp add: example_Document_def)

lemma cell_record_in_output:
  assumes "extract_content path doc = Inr content"
    "t \<in> set (doc_tables doc)" "row \<in> set (table_rows t)" "cl \<in> set row"
    "\<exists>row' \<in> set (table_rows t). \<exists>c' \<in> set row'. strip (cell_text c') \<noteq> []"
  shows "cell_content cl \<in> set (dicts content)"
proof -
  from assms(3,4) have "cell_content cl \<in> set (dicts (table_data t))"
    by (rule cell_in_table)
  moreover from assms(2,5) have "table_data t \<in> set (map table_data
      (filter (\<lambda>t. \<exists>row \<in> set (table_rows t). \<exists>c \<in> set row. strip (cell_text c) \<noteq> [])
         (doc_tables doc)))"
    by simp
  ultimately show ?thesis
    unfolding extract_content_closed(1) [OF assms(1)] dicts_root by blast
qed

lemma blank_cell_record:
  "has_blank_text (cell_content blank_cell)"
  "getitem (cell_content blank_cell) ''text'' = Inr (PStr [])"
  by (simp_all add: has_blank_text_def cell_content_def blank_cell_def strip_examples blank_def)

lemma blank_cell_in_example:
  assumes "extract_docx_content example_Document (lit ''a.docx'') = Inr content"
  shows "cell_content blank_cell \<in> set (dicts content)"
proof -
  note e = extract_docx_content_closed [OF example_opens assms]
  show ?thesis
  proof (rule cell_record_in_output [OF e])
    show "text_table \<in> set (doc_tables example_doc)" by (simp add: example_doc_def)
    show "[text_cell, blank_cell] \<in> set (table_rows text_table)" by (simp add: text_table_def)
    show "blank_cell \<in> set [text_cell, blank_cell]" by simp
    show "\<exists>row' \<in> set (table_rows text_table). \<exists>c' \<in> set row'. strip (cell_text c') \<noteq> []"
      by (simp add: text_table_def text_cell_def strip_examples lit_nonempty)
  qed
qed

text \<open>
  C1, as the specification has it: no record with a blank text anywhere in the
  output. This fails in the example document: the blank cell of its second table,
  which is kept for its other cell, has a record in the output, with the empty text.
\<close>

theorem blank_cell_counterexample:
  "list_ex has_blank_text (dicts_of (extract_docx_content example_Document (lit ''a.docx'')))"
proof -
  from example_returns obtain content where
    c: "extract_docx_content example_Document (lit ''a.docx'') = Inr content" ..
  from blank_cell_in_example [OF c] blank_cell_record(1) c show ?thesis
    by (auto simp: dicts_of_def list_ex_iff)
qed

text \<open>
  C1, amended: when the extraction returns, a dictionary anywhere in the output whose
  text is blank is the record of a table cell. So no record of a paragraph (of the
  body, a header or a cell) and no record of a run has a blank text. Cells are not
  filtered: every cell of a table that is kept has its record in the output, with the
  stripped text of the cell, which may be empty.
\<close>

theorem blank_text_only_in_cells:
  assumes "D path = Inr doc" "extract_docx_content D path = Inr content"
  shows "(\<forall>d \<in> set (dicts content). has_blank_text d \<longrightarrow> is_cell_record d) \<and>
    (\<forall>t \<in> set (doc_tables doc). \<forall>row \<in> set (table_rows t). \<forall>c \<in> set row.
       (\<exists>row' \<in> set (table_rows t). \<exists>c' \<in> set row'. strip (cell_text c') \<noteq> []) \<longrightarrow>
       cell_content c \<in> set (dicts content) \<and>
       getitem (cell_content c) ''text'' = Inr (PStr (strip (cell_text c))))"
proof -
  from assms have e: "extract_content path doc = Inr content"
    by (simp add: extract_docx_content_def)
  note ok = extract_content_closed(2) [OF e]
  define P where "P = map the_content
    (filter (\<lambda>p. strip (para_text p) \<noteq> [] \<and> \<not> is_list_para p) (doc_paragraphs doc))"
  define T where "T = map table_data
    (filter (\<lambda>t. \<exists>row \<in> set (table_rows t). \<exists>c \<in> set row. strip (cell_text c) \<noteq> [])
       (doc_tables doc))"
  define H where "H = concat (map (\<lambda>s. case section_header s of None \<Rightarrow> []
     | Some ps \<Rightarrow> map header_content (filter (\<lambda>p. strip (para_text p) \<noteq> []) ps))
     (doc_sections doc))"
  define L where "L = map (\<lambda>g. PList (map the_content g))
    (maximal_runs is_list_para (filter (\<lambda>p. strip (para_text p) \<noteq> []) (doc_paragraphs doc)))"
  have c: "content = PDict [(''paragraphs'', PList P), (''tables'', PList T),
     (''headers'', PList H), (''document_name'', PStr (basename path)), (''lists'', PList L)]"
    unfolding P_def T_def H_def L_def by (rule extract_content_closed(1) [OF e])
  have par: "\<not> has_blank_text d"
    if "p \<in> set (doc_paragraphs doc)" "strip (para_text p) \<noteq> []"
      "d \<in> set (dicts (the_content p))" for p d
    using that ok dicts_para_content [of p "the_content p" d] by blast
  have hP: "\<not> has_blank_text d" if "x \<in> set P" "d \<in> set (dicts x)" for x d
    using that par by (auto simp: P_def)
  have hT: "is_cell_record d" if "x \<in> set T" "d \<in> set (dicts x)" "has_blank_text d" for x d
    using that dicts_table_data by (auto simp: T_def)
  have hH: "\<not> has_blank_text d" if "x \<in> set H" "d \<in> set (dicts x)" for x d
    using that dicts_header_content by (auto simp: H_def split: option.splits)
  have hL: "\<not> has_blank_text d" if "x \<in> set L" "d \<in> set (dicts x)" for x d
  proof -
    from that obtain g p where "g \<in> set (maximal_runs is_list_para
        (filter (\<lambda>p. strip (para_text p) \<noteq> []) (doc_paragraphs doc)))"
      "p \<in> set g" "d \<in> set (dicts (the_content p))"
      by (auto simp: L_def)
    with maximal_runs_member [of g is_list_para
        "filter (\<lambda>p. strip (para_text p) \<noteq> []) (doc_paragraphs doc)" p] par
    show ?thesis by auto
  qed
  have root: "\<not> has_blank_text content"
    by (simp add: c has_blank_text_def)
  have first: "is_cell_record d" if "d \<in> set (dicts content)" "has_blank_text d" for d
  proof -
    from that(1) have "d = content \<or> (\<exists>x \<in> set P. d \<in> set (dicts x)) \<or>
      (\<exists>x \<in> set T. d \<in> set (dicts x)) \<or> (\<exists>x \<in> set H. d \<in> set (dicts x)) \<or>
      (\<exists>x \<in> set L. d \<in> set (dicts x))"
      unfolding c dicts_root by blast
    with that(2) root hP hT hH hL show ?thesis by blast
  qed
  have second: "cell_content cl \<in> set (dicts content)"
    if "t \<in> set (doc_tables doc)" "row \<in> set (table_rows t)" "cl \<in> set row"
      "\<exists>row' \<in> set (table_rows t). \<exists>c' \<in> set row'. strip (cell_text c') \<noteq> []" for t row cl
  proof -
    from that(2,3) have "cell_content cl \<in> set (dicts (table_data t))"
      by (rule cell_in_table)
    moreover from that(1,4) have "table_data t \<in> set T" by (simp add: T_def)
    ultimately show ?thesis unfolding c dicts_root by blast
  qed
  from first second getitem_cell_text show ?thesis by blast
qed

theorem blank_text_only_in_cells_witness:
  "cell_content blank_cell \<in>
     set (dicts_of (extract_docx_content example_Document (lit ''a.docx''))) \<and>
   has_blank_text (cell_content blank_cell) \<and>
   is_cell_record (cell_content blank_cell)"
proof -
  from example_returns obtain content where
    c: "extract_docx_content example_Document (lit ''a.docx'') = Inr content" ..
  note m = blank_cell_in_example [OF c]
  from blank_text_only_in_cells [OF example_opens c] m blank_cell_record(1)
  have "is_cell_record (cell_content blank_cell)" by blast
  with m blank_cell_record(1) c show ?thesis by (simp add: dicts_of_def)
qed

section \<open>List groups\<close>

text \<open>
  C2, as the specification has it: the groups of the output are the maximal runs of
  consecutive list items in the sequence of the body paragraphs. This fails in the
  example document, where a blank paragraph of style Normal stands between the list
  items a and b: the sequence has three runs, the output has two groups, and a and b
  are in the same group.
\<close>

theorem lists_counterexample:
  "field ''lists'' (extract_docx_content example_Document (lit ''a.docx'')) \<noteq>
     Inr (PList (map (\<lambda>g. PList (map the_content g))
       (maximal_runs is_list_para (doc_paragraphs example_doc))))"
proof -
  from example_returns obtain content where
    c: "extract_docx_content example_Document (lit ''a.docx'') = Inr content" ..
  note e = extract_docx_content_closed [OF example_opens c]
  from lists_closed [OF e]
  have "getitem content ''lists'' =
     Inr (PList
       [PList [the_content (plain_para ''List Bullet'' ''a''),
               the_content (plain_para ''List Bullet'' ''b'')],
        PList [the_content (plain_para ''List Number'' ''c'')]])"
    unfolding example_paragraphs example_runs by simp
  with c show ?thesis
    unfolding example_runs_all by (simp add: field_def)
qed

text \<open>
  C2, amended: when the extraction returns, the groups of the output are the maximal
  runs of consecutive list items in the sequence of the body paragraphs with
  non-blank text, one group for each run, in order; a blank paragraph is skipped
  and neither joins nor closes a group. How many groups there are and how long each
  is depends only on the sequence of classifications of these paragraphs.
\<close>

theorem lists_are_maximal_runs:
  assumes "D path = Inr doc" "extract_docx_content D path = Inr content"
  shows "getitem content ''lists'' =
     Inr (PList (map (\<lambda>g. PList (map the_content g))
       (maximal_runs is_list_para
          (filter (\<lambda>p. \<not> blank (para_text p)) (doc_paragraphs doc))))) \<and>
    map length (maximal_runs is_list_para
        (filter (\<lambda>p. \<not> blank (para_text p)) (doc_paragraphs doc))) =
    map length (maximal_runs (\<lambda>b. b)
        (map is_list_para (filter (\<lambda>p. \<not> blank (para_text p)) (doc_paragraphs doc))))"
proof
  from lists_closed [OF extract_docx_content_closed [OF assms]]
  show "getitem content ''lists'' =
     Inr (PList (map (\<lambda>g. PList (map the_content g))
       (maximal_runs is_list_para
          (filter (\<lambda>p. \<not> blank (para_text p)) (doc_paragraphs doc)))))" .
  show "map length (maximal_runs is_list_para
        (filter (\<lambda>p. \<not> blank (para_text p)) (doc_paragraphs doc))) =
    map length (maximal_runs (\<lambda>b. b)
        (map is_list_para (filter (\<lambda>p. \<not> blank (para_text p)) (doc_paragraphs doc))))"
    by (simp add: maximal_runs_map comp_def)
qed

theorem lists_are_maximal_runs_witness:
  "field ''lists'' (extract_docx_content example_Document (lit ''a.docx'')) =
     Inr (PList
       [PList [the_content (plain_para ''List Bullet'' ''a''),
               the_content (plain_para ''List Bullet'' ''b'')],
        PList [the_content (plain_para ''List Number'' ''c'')]])"
proof -
  from example_returns obtain content where
    c: "extract_docx_content example_Document (lit ''a.docx'') = Inr content" ..
  from lists_are_maximal_runs [OF example_opens c]
  have "getitem content ''lists'' =
     Inr (PList (map (\<lambda>g. PList (map the_content g))
       (maximal_runs is_list_para
          (filter (\<lambda>p. \<not> blank (para_text p)) (doc_paragraphs example_doc)))))"
    by (rule conjunct1)
  then have "getitem content ''lists'' =
     Inr (PList
       [PList [the_content (plain_para ''List Bullet'' ''a''),
               the_content (plain_para ''List Bullet'' ''b'')],
        PList [the_content (plain_para ''List Number'' ''c'')]])"
    unfolding example_paragraphs example_runs by simp
  with c show ?thesis by (simp add: field_def)
qed

section \<open>Classification of list items, and the text of runs\<close>

lemma plain_para_content_eq:
  "para_content (plain_para style t) = Inr (the_content (plain_para style t))"
  using plain_para_content [of style t] by (auto simp: the_content_def)

text \<open>
  C5. In the record of a body paragraph, \<^verbatim>\<open>is_list_item\<close> is true if and only if the
  style name of the paragraph begins with \<^verbatim>\<open>List\<close>, in this case of the letters, or the
  document model flags the paragraph as numbered.
\<close>

theorem is_list_item_iff:
  assumes "para_content p = Inr pc"
  shows "getitem pc ''is_list_item'' = Inr (PBool (is_list_para p)) \<and>
    (is_list_para p \<longleftrightarrow>
       (\<exists>name. para_style_name p = Some name \<and> prefix (lit ''List'') name) \<or> para_numbering p)"
  using para_content_is_list_item [OF assms]
  by (auto simp: is_list_para_def split: option.splits)

theorem is_list_item_iff_witness:
  "getitem (the_content (plain_para ''List Bullet'' ''a'')) ''is_list_item'' = Inr (PBool True) \<and>
   getitem (the_content (plain_para ''list'' ''a'')) ''is_list_item'' = Inr (PBool False)"
  using is_list_item_iff [OF plain_para_content_eq [of "''List Bullet''" "''a''"]]
    is_list_item_iff [OF plain_para_content_eq [of "''list''" "''a''"]]
  by (simp add: is_list_examples)

lemma runs_of_records:
  "getitem (header_content p) ''runs'' =
     Inr (PList (map run_content (filter (\<lambda>r. \<not> blank (run_text r)) (para_runs p))))"
  "getitem (cell_para_content p) ''runs'' =
     Inr (PList (map run_content (filter (\<lambda>r. \<not> blank (run_text r)) (para_runs p))))"
  "para_content p = Inr pc \<Longrightarrow> getitem pc ''runs'' =
     Inr (PList (map run_content (filter (\<lambda>r. \<not> blank (run_text r)) (para_runs p))))"
  by (auto simp: header_content_def cell_para_content_def para_content_def append_runs_eq
      strip_Nil_iff split: option.splits sum.splits)

lemma text_of_records:
  "getitem (header_content p) ''text'' = Inr (PStr (strip (para_text p)))"
  "getitem (cell_para_content p) ''text'' = Inr (PStr (strip (para_text p)))"
  "para_content p = Inr pc \<Longrightarrow> getitem pc ''text'' = Inr (PStr (strip (para_text p)))"
  by (auto simp: header_content_def cell_para_content_def para_content_def
      split: option.splits sum.splits)

text \<open>
  C10. The record of a kept run has the text of the run as it is, not stripped; the
  runs of a paragraph record are the records of the runs with non-blank text, in
  order; and the text of the paragraph record is the stripped text of the paragraph.
  This holds for header paragraphs, cell paragraphs and body paragraphs.
\<close>

theorem run_text_verbatim:
  "getitem (run_content r) ''text'' = Inr (PStr (run_text r)) \<and>
   getitem (header_content p) ''runs'' =
     Inr (PList (map run_content (filter (\<lambda>r. \<not> blank (run_text r)) (para_runs p)))) \<and>
   getitem (header_content p) ''text'' = Inr (PStr (strip (para_text p))) \<and>
   getitem (cell_para_content p) ''runs'' =
     Inr (PList (map run_content (filter (\<lambda>r. \<not> blank (run_text r)) (para_runs p)))) \<and>
   getitem (cell_para_content p) ''text'' = Inr (PStr (strip (para_text p))) \<and>
   (\<forall>pc. para_content p = Inr pc \<longrightarrow>
      getitem pc ''runs'' =
        Inr (PList (map run_content (filter (\<lambda>r. \<not> blank (run_text r)) (para_runs p)))) \<and>
      getitem pc ''text'' = Inr (PStr (strip (para_text p))))"
  using runs_of_records [of p] text_of_records [of p]
  by (simp add: run_content_def)

lemma spaced_para_content: "para_content spaced_para = Inr (the_content spaced_para)"
proof -
  have "\<exists>pc. para_content spaced_para = Inr pc"
    by (rule para_content_returns) (simp_all add: spaced_para_def)
  then show ?thesis by (auto simp: the_content_def)
qed

lemma spaced_strips:
  "strip (lit '' Hi there '') = lit ''Hi there''"
  "blank (lit '' '')" "\<not> blank (lit '' Hi '')" "\<not> blank (lit ''there '')"
  by (simp_all add: strip_def lit_def isspace_def blank_def)

theorem run_text_verbatim_witness:
  "getitem (the_content spaced_para) ''text'' = Inr (PStr (lit ''Hi there'')) \<and>
   getitem (the_content spaced_para) ''runs'' =
     Inr (PList [run_content (plain_run (lit '' Hi '')), run_content (plain_run (lit ''there ''))]) \<and>
   getitem (run_content (plain_run (lit '' Hi ''))) ''text'' = Inr (PStr (lit '' Hi ''))"
  using run_text_verbatim [of "plain_run (lit '' Hi '')" spaced_para] spaced_para_content
  by (simp add: spaced_para_def plain_run_def spaced_strips)

section \<open>Every body paragraph once\<close>

lemma para_text_plain: "para_text (plain_para style t) = lit t"
  by (simp add: plain_para_def)

lemma blank_examples:
  "blank (lit '' '')" "\<not> blank (lit ''a'')" "\<not> blank (lit ''b'')" "\<not> blank (lit ''c'')"
  "\<not> blank (lit ''text'')"
  by (simp_all add: strip_Nil_iff [symmetric] strip_examples lit_nonempty)

lemma mset_split_filter:
  "mset (filter (\<lambda>p. Q p \<and> \<not> P p) ps) + mset (filter (\<lambda>p. Q p \<and> P p) ps) =
   mset (filter Q ps)"
  by (induction ps) auto

text \<open>
  C9. When the extraction returns, the paragraphs of the output are the records of the
  non-blank body paragraphs that are not list items, in order; the groups of the
  output, joined, are the non-blank body paragraphs that are list items, in
  order, and no group is empty; the two together are the non-blank body paragraphs,
  each counted as often as it occurs; and every record says in \<^verbatim>\<open>is_list_item\<close> on
  which side it is.
\<close>

theorem every_paragraph_once:
  assumes "D path = Inr doc" "extract_docx_content D path = Inr content"
  shows "getitem content ''paragraphs'' =
      Inr (PList (map the_content
        (filter (\<lambda>p. \<not> blank (para_text p) \<and> \<not> is_list_para p) (doc_paragraphs doc)))) \<and>
    getitem content ''lists'' =
      Inr (PList (map (\<lambda>g. PList (map the_content g))
        (maximal_runs is_list_para
           (filter (\<lambda>p. \<not> blank (para_text p)) (doc_paragraphs doc))))) \<and>
    concat (maximal_runs is_list_para
        (filter (\<lambda>p. \<not> blank (para_text p)) (doc_paragraphs doc))) =
      filter (\<lambda>p. \<not> blank (para_text p) \<and> is_list_para p) (doc_paragraphs doc) \<and>
    [] \<notin> set (maximal_runs is_list_para
        (filter (\<lambda>p. \<not> blank (para_text p)) (doc_paragraphs doc))) \<and>
    mset (filter (\<lambda>p. \<not> blank (para_text p) \<and> \<not> is_list_para p) (doc_paragraphs doc)) +
    mset (concat (maximal_runs is_list_para
        (filter (\<lambda>p. \<not> blank (para_text p)) (doc_paragraphs doc)))) =
      mset (filter (\<lambda>p. \<not> blank (para_text p)) (doc_paragraphs doc)) \<and>
    (\<forall>p \<in> set (doc_paragraphs doc). \<not> blank (para_text p) \<longrightarrow>
       getitem (the_content p) ''is_list_item'' = Inr (PBool (is_list_para p)))"
proof -
  note e = extract_docx_content_closed [OF assms]
  have cc: "concat (maximal_runs is_list_para
        (filter (\<lambda>p. \<not> blank (para_text p)) (doc_paragraphs doc))) =
      filter (\<lambda>p. \<not> blank (para_text p) \<and> is_list_para p) (doc_paragraphs doc)"
    by (simp add: maximal_runs_concat)
  have fl: "\<forall>p \<in> set (doc_paragraphs doc). \<not> blank (para_text p) \<longrightarrow>
       getitem (the_content p) ''is_list_item'' = Inr (PBool (is_list_para p))"
    using extract_content_closed(2) [OF e] para_content_is_list_item
    by (simp add: strip_Nil_iff)
  show ?thesis
    using paragraphs_closed [OF e] lists_closed [OF e] cc fl
    by (simp only: maximal_runs_nonempty mset_split_filter not_False_eq_True simp_thms)
qed

theorem every_paragraph_once_witness:
  "field ''paragraphs'' (extract_docx_content example_Document (lit ''a.docx'')) =
     Inr (PList [the_content (plain_para ''Normal'' ''text'')]) \<and>
   concat (maximal_runs is_list_para
        (filter (\<lambda>p. \<not> blank (para_text p)) (doc_paragraphs example_doc))) =
     [plain_para ''List Bullet'' ''a'', plain_para ''List Bullet'' ''b'',
      plain_para ''List Number'' ''c'']"
proof -
  from example_returns obtain content where
    c: "extract_docx_content example_Document (lit ''a.docx'') = Inr content" ..
  have f: "filter (\<lambda>p. \<not> blank (para_text p) \<and> \<not> is_list_para p) (doc_paragraphs example_doc) =
      [plain_para ''Normal'' ''text'']"
    by (simp add: example_doc_def para_text_plain blank_examples is_list_examples)
  from every_paragraph_once [OF example_opens c]
  have "getitem content ''paragraphs'' =
      Inr (PList (map the_content
        (filter (\<lambda>p. \<not> blank (para_text p) \<and> \<not> is_list_para p) (doc_paragraphs example_doc))))"
    by (rule conjunct1)
  then have "getitem content ''paragraphs'' = Inr (PList [the_content (plain_para ''Normal'' ''text'')])"
    unfolding f by simp
  moreover have "concat (maximal_runs is_list_para
        (filter (\<lambda>p. \<not> blank (para_text p)) (doc_paragraphs example_doc))) =
     [plain_para ''List Bullet'' ''a'', plain_para ''List Bullet'' ''b'',
      plain_para ''List Number'' ''c'']"
    unfolding example_paragraphs example_runs by simp
  ultimately show ?thesis using c by (simp add: field_def)
qed

section \<open>The batch driver: reports and files\<close>

lemma process_file_eq:
  "process_file E f w =
     w\<lparr>stdout := stdout w @ lines_for E f, files := files w @ files_for E f\<rparr>"
  by (simp add: process_file_def try_file_def outcome_def lines_for_def files_for_def
      print_def Let_def split: sum.splits option.splits)

lemma process_loop_eq:
  "process_loop E fs w =
     w\<lparr>stdout := stdout w @ concat (map (lines_for E) fs),
       files := files w @ concat (map (files_for E) fs)\<rparr>"
  by (induction fs arbitrary: w) (simp_all add: process_file_eq)




lemma rfind_absent: "c \<notin> set s \<Longrightarrow> rfind s c = - 1"
  by (simp add: rfind_def)

lemma rfind_last: "c \<notin> set ext \<Longrightarrow> rfind (stem @ c # ext) c = int (length stem)"
proof -
  assume a: "c \<notin> set ext"
  have "takeWhile (\<lambda>x. x \<noteq> c) (rev ext @ c # rev stem) = rev ext"
    using a by (simp add: takeWhile_append)
  then show ?thesis by (simp add: rfind_def)
qed

lemma splitext_name:
  assumes "47 \<notin> set stem" "47 \<notin> set ext" "46 \<notin> set ext"
  shows "splitext (stem @ 46 # ext) =
     (if \<exists>c \<in> set stem. c \<noteq> 46 then (stem, 46 # ext) else (stem @ 46 # ext, []))"
proof -
  have s: "rfind (stem @ 46 # ext) 47 = - 1"
    using assms by (simp add: rfind_absent)
  have d: "rfind (stem @ 46 # ext) 46 = int (length stem)"
    using assms by (simp add: rfind_last)
  show ?thesis
    unfolding splitext_def s d by (simp add: Let_def)
qed

lemma example_docx_files: "docx_files example_env = [lit ''bad.docx'', lit ''a.docx'']"
  by (simp add: docx_files_def example_env_def endswith_def ascii_lower_def lit_def)

lemma dot_docx_files: "docx_files dot_env = [lit ''.docx'']"
  by (simp add: docx_files_def dot_env_def endswith_def ascii_lower_def lit_def)

lemma json_filename_name:
  assumes "47 \<notin> set stem" "47 \<notin> set ext" "46 \<notin> set ext"
  shows "json_filename (stem @ 46 # ext) =
     (if \<exists>c \<in> set stem. c \<noteq> 46 then stem @ lit ''.json''
      else stem @ 46 # ext @ lit ''.json'')"
  by (simp add: json_filename_def splitext_name [OF assms])


lemma json_filename_dot: "json_filename (lit ''.docx'') = lit ''.docx.json''"
  using json_filename_name [of "[]" "lit ''docx''"] by (simp add: lit_def)

lemma outcome_bad:
  "outcome example_env (lit ''bad.docx'') = Inl (OtherException (lit ''Package not found''))"
  by (simp add: outcome_def example_env_def extract_docx_content_def example_Document_def
      lit_def)

lemma outcome_a: "\<exists>content. outcome example_env (lit ''a.docx'') = Inr content"
  using example_returns by (auto simp: outcome_def example_env_def)

lemma outcome_dot: "\<exists>content. outcome dot_env (lit ''.docx'') = Inr content"
proof -
  from example_returns obtain c where
    "extract_docx_content example_Document (lit ''a.docx'') = Inr c" ..
  then have "extract_content (lit ''a.docx'') example_doc = Inr c"
    by (simp add: extract_docx_content_def example_Document_def)
  then have "\<forall>p \<in> set (doc_paragraphs example_doc).
      strip (para_text p) \<noteq> [] \<longrightarrow> para_content p = Inr (the_content p)"
    by (rule extract_content_closed(2))
  then have "\<exists>content. extract_content (lit ''.docx'') example_doc = Inr content"
    by (intro extract_content_returns) blast
  then show ?thesis
    by (auto simp: outcome_def dot_env_def extract_docx_content_def)
qed


text \<open>
  C8, as the specification has it: the output is named by replacing the extension of
  the input. This fails for a document named \<^verbatim>\<open>.docx\<close>: the driver chooses it, and
  writes \<^verbatim>\<open>.docx.json\<close>, not \<^verbatim>\<open>.json\<close>.
\<close>

theorem json_name_counterexample:
  "map file_name (files (process_docx_files dot_env empty_world)) = [lit ''.docx.json''] \<and>
   map file_name (files (process_docx_files dot_env empty_world)) \<noteq>
     [spec_json_name (lit ''.docx'')]"
proof -
  from outcome_dot obtain content where d: "outcome dot_env (lit ''.docx'') = Inr content" ..
  have n: "map file_name (files (process_docx_files dot_env empty_world)) = [lit ''.docx.json'']"
    by (simp add: process_docx_files_def dot_docx_files process_loop_eq files_for_def d
        json_filename_dot empty_world_def)
  have "spec_json_name (lit ''.docx'') = lit ''.json''"
    by (simp add: spec_json_name_def lit_def)
  moreover have "lit ''.docx.json'' \<noteq> lit ''.json''"
    by (simp add: lit_def)
  ultimately show ?thesis using n by simp
qed

text \<open>
  C8, amended: the files written by the loop are, in order, one file for each input
  whose extraction and writing do not raise, and none for the others; the file is
  opened as UTF-8 and the content is dumped with \<^verbatim>\<open>ensure_ascii=False\<close> and
  \<^verbatim>\<open>indent=4\<close>. For an input name with a last dot and no separator, the output name
  is what precedes the last dot followed by \<^verbatim>\<open>.json\<close> if some character other than a
  dot precedes it, and the whole input name followed by \<^verbatim>\<open>.json\<close> otherwise.
\<close>

theorem one_json_file_per_success:
  "files (process_loop E fs w) = files w @ concat (map (files_for E) fs) \<and>
   (outcome E f = Inr content \<longrightarrow>
      files_for E f =
        [\<lparr>file_name = json_filename f, file_encoding = ''utf-8'', dumped = content,
          ensure_ascii = False, indent = 4\<rparr>]) \<and>
   (\<forall>e. outcome E f = Inl e \<longrightarrow> files_for E f = []) \<and>
   (47 \<notin> set stem \<and> 47 \<notin> set ext \<and> 46 \<notin> set ext \<longrightarrow>
      json_filename (stem @ 46 # ext) =
        (if \<exists>c \<in> set stem. c \<noteq> 46 then stem @ lit ''.json''
         else stem @ 46 # ext @ lit ''.json''))"
  by (simp add: process_loop_eq [of E fs w] files_for_def json_filename_name)

theorem one_json_file_per_success_witness:
  "map (\<lambda>x. (file_name x, file_encoding x, ensure_ascii x, indent x))
     (files (process_docx_files example_env empty_world)) =
     [(lit ''a.json'', ''utf-8'', False, 4)]"
proof -
  from outcome_a obtain content where a: "outcome example_env (lit ''a.docx'') = Inr content" ..
  note t = one_json_file_per_success
    [of example_env "docx_files example_env" empty_world "lit ''a.docx''" content
       "lit ''a''" "lit ''docx''"]
  from t have "files (process_loop example_env (docx_files example_env) empty_world) =
      files empty_world @ concat (map (files_for example_env) (docx_files example_env))"
    by (rule conjunct1)
  moreover from t a have "files_for example_env (lit ''a.docx'') =
        [\<lparr>file_name = json_filename (lit ''a.docx''), file_encoding = ''utf-8'',
          dumped = content, ensure_ascii = False, indent = 4\<rparr>]"
    by blast
  moreover have "files_for example_env (lit ''bad.docx'') = []"
    by (simp add: files_for_def outcome_bad)
  moreover from t have "json_filename (lit ''a.docx'') = lit ''a.json''"
    by (simp add: lit_def)
  ultimately show ?thesis
    by (simp add: process_docx_files_def example_docx_files empty_world_def)
qed

end
